theory Spec2Isabelle
  imports Main "HOL-Library.Word"
begin

section \<open>JavaScript strings\<close>

text \<open>
  A JavaScript string is a sequence of UTF-16 code units; \<open>s.length\<close> counts code units.
  \<open>js\<close> writes an ASCII literal as such a sequence.
\<close>

type_synonym jschar = "16 word"
type_synonym jsstring = "jschar list"

definition js :: "string \<Rightarrow> jsstring" where
  "js s = map of_char s"

text \<open>
  \<open>String.prototype.trim\<close> removes the code units of ECMAScript's WhiteSpace and
  LineTerminator productions from both ends of the string.
\<close>

definition is_white_space :: "jschar \<Rightarrow> bool" where
  "is_white_space c \<longleftrightarrow>
     c = 0x0009 \<or> c = 0x000A \<or> c = 0x000B \<or> c = 0x000C \<or> c = 0x000D \<or> c = 0x0020 \<or>
     c = 0x00A0 \<or> c = 0x1680 \<or> (0x2000 \<le> c \<and> c \<le> 0x200A) \<or> c = 0x2028 \<or> c = 0x2029 \<or>
     c = 0x202F \<or> c = 0x205F \<or> c = 0x3000 \<or> c = 0xFEFF"

definition trim :: "jsstring \<Rightarrow> jsstring" where
  "trim s = rev (dropWhile is_white_space (rev (dropWhile is_white_space s)))"

text \<open>
  \<open>!v\<close> for a payload field that is either absent (\<open>undefined\<close>) or a string:
  absent and the empty string are falsy, every other string is truthy.
\<close>

fun falsy :: "jsstring option \<Rightarrow> bool" where
  "falsy None = True"
| "falsy (Some s) = (s = [])"

section \<open>Data held by the server\<close>

text \<open>The object stored in \<open>users\<close> for a socket (server.js, lines 53 to 58).\<close>

record user =
  user_id :: jsstring
  user_username :: jsstring
  user_room :: jsstring
  user_socketId :: jsstring

text \<open>The \<open>user\<close> field of a message: \<open>{ username, id }\<close>.\<close>

record author =
  author_id :: jsstring
  author_username :: jsstring

datatype message_type = TMessage | TSystem

record message =
  msg_id :: jsstring
  msg_user :: author
  msg_text :: jsstring
  msg_timestamp :: jsstring
  msg_type :: message_type

text \<open>
  The three module-level maps of server.js (lines 29 to 31), and the room membership that
  socket.io keeps for \<open>socket.join\<close>, \<open>socket.to(room)\<close> and \<open>io.to(room)\<close>.
  A JavaScript \<open>Set\<close> enumerates in insertion order, so a set of socket ids is a list
  without repetition.
\<close>

record state =
  users :: "jsstring \<rightharpoonup> user"
  rooms :: "jsstring \<rightharpoonup> jsstring list"
  messages :: "jsstring \<rightharpoonup> message list"
  adapter :: "jsstring \<Rightarrow> jsstring list"

definition init :: state where
  "init = \<lparr> users = Map.empty, rooms = Map.empty, messages = Map.empty, adapter = (\<lambda>_. []) \<rparr>"

definition set_add :: "'a list \<Rightarrow> 'a \<Rightarrow> 'a list" where
  "set_add xs x = (if x \<in> set xs then xs else xs @ [x])"

definition set_delete :: "'a list \<Rightarrow> 'a \<Rightarrow> 'a list" where
  "set_delete xs x = filter (\<lambda>y. y \<noteq> x) xs"

section \<open>Outbound events\<close>

datatype event =
    Error jsstring
  | Joined user jsstring "message list" "user option list"
  | UserJoined user message
  | NewMessage message
  | UserTyping jsstring jsstring bool
  | UserLeft jsstring jsstring message

text \<open>
  One call of \<open>emit\<close> is one emission: the sockets it reaches and the event.
  \<open>socket.emit\<close> reaches the socket itself and \<open>io.to(room).emit\<close> every socket that
  joined \<open>room\<close>. \<open>socket.to(room)\<close> is a broadcast to \<open>room\<close> that excepts the room
  named by the socket's own id: socket.io leaves out every socket that is in that room,
  which holds the emitting socket while it is connected and every socket that joined a
  room of that name. A room argument that is \<open>undefined\<close> names no room.
\<close>

type_synonym emission = "jsstring list \<times> event"

definition socket_emit :: "jsstring \<Rightarrow> event \<Rightarrow> emission" where
  "socket_emit sid ev = ([sid], ev)"

definition socket_to_emit :: "state \<Rightarrow> jsstring \<Rightarrow> jsstring option \<Rightarrow> event \<Rightarrow> emission" where
  "socket_to_emit s sid room ev =
     (case room of None \<Rightarrow> ([], ev)
      | Some r \<Rightarrow> (filter (\<lambda>x. x \<notin> set (adapter s sid)) (adapter s r), ev))"

definition io_to_emit :: "state \<Rightarrow> jsstring option \<Rightarrow> event \<Rightarrow> emission" where
  "io_to_emit s room ev =
     (case room of None \<Rightarrow> ([], ev) | Some r \<Rightarrow> (adapter s r, ev))"

definition socket_join :: "state \<Rightarrow> jsstring \<Rightarrow> jsstring \<Rightarrow> state" where
  "socket_join s sid r = s\<lparr> adapter := (adapter s)(r := set_add (adapter s r) sid) \<rparr>"

definition leave_all :: "state \<Rightarrow> jsstring \<Rightarrow> state" where
  "leave_all s sid = s\<lparr> adapter := (\<lambda>r. set_delete (adapter s r) sid) \<rparr>"

definition MAX_MESSAGE_LENGTH :: nat where
  "MAX_MESSAGE_LENGTH = 1000"

definition system_author :: author where
  "system_author = \<lparr> author_id = js ''system'', author_username = js ''System'' \<rparr>"

text \<open>The three message objects the handlers build (lines 77, 129 and 176).\<close>

definition system_message :: "jsstring \<Rightarrow> jsstring \<Rightarrow> jsstring \<Rightarrow> message" where
  "system_message mid text now =
     \<lparr> msg_id = mid, msg_user = system_author, msg_text = text,
       msg_timestamp = now, msg_type = TSystem \<rparr>"

definition welcome_message :: "jsstring \<Rightarrow> jsstring \<Rightarrow> jsstring \<Rightarrow> message" where
  "welcome_message username mid now =
     system_message mid (username @ js '' has joined the room'') now"

definition leave_message :: "jsstring \<Rightarrow> jsstring \<Rightarrow> jsstring \<Rightarrow> message" where
  "leave_message username mid now =
     system_message mid (username @ js '' has left the room'') now"

definition chat_message :: "user \<Rightarrow> jsstring \<Rightarrow> jsstring \<Rightarrow> jsstring \<Rightarrow> message" where
  "chat_message u text mid now =
     \<lparr> msg_id = mid,
       msg_user = \<lparr> author_id = user_id u, author_username = user_username u \<rparr>,
       msg_text = trim text, msg_timestamp = now, msg_type = TMessage \<rparr>"

section \<open>The event handlers\<close>

text \<open>
  \<open>io.on('connection')\<close> (line 34): socket.io has put the new socket into the room named
  by its own id; the callback registers the handlers below and changes none of the maps.
\<close>

definition connection :: "state \<Rightarrow> jsstring \<Rightarrow> state \<times> emission list" where
  "connection s sid = (socket_join s sid sid, [])"

text \<open>
  \<open>socket.on('join')\<close> (lines 38 to 105). \<open>uid\<close> and \<open>mid\<close> are the results of the two
  calls of \<open>uuidv4()\<close>, \<open>now\<close> is the formatted clock. With a string for each field that is
  present nothing in the \<open>try\<close> block throws, so the \<open>catch\<close> branch has no case here.
\<close>

definition join ::
  "state \<Rightarrow> jsstring \<Rightarrow> jsstring option \<Rightarrow> jsstring option \<Rightarrow> jsstring \<Rightarrow> jsstring \<Rightarrow> jsstring
     \<Rightarrow> state \<times> emission list" where
  "join s sid username room uid mid now =
     (if falsy username \<or> falsy room then
        (s, [socket_emit sid (Error (js ''Username and room are required''))])
      else
        (case (username, room) of
           (Some un, Some r) \<Rightarrow>
             if length un > 20 then
               (s, [socket_emit sid (Error (js ''Username too long (max 20 chars)''))])
             else
               let u = \<lparr> user_id = uid, user_username = un, user_room = r, user_socketId = sid \<rparr>;
                   s1 = s\<lparr> users := (users s)(sid \<mapsto> u) \<rparr>;
                   s2 = (if rooms s1 r = None then s1\<lparr> rooms := (rooms s1)(r \<mapsto> []) \<rparr> else s1);
                   s3 = (case rooms s2 r of
                           Some members \<Rightarrow> s2\<lparr> rooms := (rooms s2)(r \<mapsto> set_add members sid) \<rparr>
                         | None \<Rightarrow> s2);
                   s4 = (if messages s3 r = None then s3\<lparr> messages := (messages s3)(r \<mapsto> []) \<rparr>
                         else s3);
                   s5 = socket_join s4 sid r;
                   welcomeMessage = welcome_message un mid now;
                   s6 = (case messages s5 r of
                           Some log \<Rightarrow> s5\<lparr> messages := (messages s5)(r \<mapsto> log @ [welcomeMessage]) \<rparr>
                         | None \<Rightarrow> s5)
               in (s6,
                   [socket_emit sid
                      (Joined u r (case messages s6 r of Some log \<Rightarrow> log | None \<Rightarrow> [])
                         (map (users s6) (case rooms s6 r of Some members \<Rightarrow> members | None \<Rightarrow> []))),
                    socket_to_emit s6 sid (Some r) (UserJoined u welcomeMessage)])
         | _ \<Rightarrow> (s, [socket_emit sid (Error (js ''Username and room are required''))])))"

text \<open>
  \<open>socket.on('chatMessage')\<close> (lines 108 to 150). \<open>messages.get(room).push\<close> throws a
  TypeError when \<open>room\<close> has no log; the \<open>catch\<close> reports it to the socket. Nothing has
  been written to the maps before that point.
\<close>

definition chatMessage ::
  "state \<Rightarrow> jsstring \<Rightarrow> jsstring option \<Rightarrow> jsstring option \<Rightarrow> jsstring \<Rightarrow> jsstring
     \<Rightarrow> state \<times> emission list" where
  "chatMessage s sid message room mid now =
     (case users s sid of
        None \<Rightarrow> (s, [socket_emit sid (Error (js ''User not found''))])
      | Some u \<Rightarrow>
          (case message of
             None \<Rightarrow> (s, [socket_emit sid (Error (js ''Message cannot be empty''))])
           | Some m \<Rightarrow>
               if m = [] \<or> trim m = [] then
                 (s, [socket_emit sid (Error (js ''Message cannot be empty''))])
               else if length m > MAX_MESSAGE_LENGTH then
                 (s, [socket_emit sid (Error (js ''Message too long (max 1000 chars)''))])
               else
                 let chat = chat_message u m mid now
                 in (case (case room of None \<Rightarrow> None | Some r \<Rightarrow>
                             (case messages s r of None \<Rightarrow> None | Some log \<Rightarrow> Some (r, log))) of
                       None \<Rightarrow> (s, [socket_emit sid (Error (js ''Failed to send message''))])
                     | Some (r, log) \<Rightarrow>
                         let s1 = s\<lparr> messages := (messages s)(r \<mapsto> log @ [chat]) \<rparr>
                         in (s1, [io_to_emit s1 room (NewMessage chat)]))))"

text \<open>\<open>socket.on('typing')\<close> (lines 153 to 162).\<close>

definition typing ::
  "state \<Rightarrow> jsstring \<Rightarrow> jsstring option \<Rightarrow> bool \<Rightarrow> state \<times> emission list" where
  "typing s sid room isTyping =
     (case users s sid of
        Some u \<Rightarrow> (s, [socket_to_emit s sid room (UserTyping (user_id u) (user_username u) isTyping)])
      | None \<Rightarrow> (s, []))"

text \<open>
  \<open>socket.on('disconnect')\<close> (lines 165 to 198). The handler has no \<open>try\<close>: a missing log
  at line 184 is an uncaught TypeError, the value \<open>None\<close> here.
\<close>

definition disconnect_handler ::
  "state \<Rightarrow> jsstring \<Rightarrow> jsstring \<Rightarrow> jsstring \<Rightarrow> (state \<times> emission list) option" where
  "disconnect_handler s sid mid now =
     (case users s sid of
        None \<Rightarrow> Some (s, [])
      | Some u \<Rightarrow>
          let r = user_room u in
          (case rooms s r of
             None \<Rightarrow> Some (s\<lparr> users := (users s)(sid := None) \<rparr>, [])
           | Some roomUsers \<Rightarrow>
               if sid \<in> set roomUsers then
                 let s1 = s\<lparr> rooms := (rooms s)(r \<mapsto> set_delete roomUsers sid) \<rparr>;
                     leaveMessage = leave_message (user_username u) mid now
                 in (case messages s1 r of
                       None \<Rightarrow> None
                     | Some log \<Rightarrow>
                         let s2 = s1\<lparr> messages := (messages s1)(r \<mapsto> log @ [leaveMessage]) \<rparr>;
                             out = [socket_to_emit s2 sid (Some r)
                                      (UserLeft (user_id u) (user_username u) leaveMessage)]
                         in Some (s2\<lparr> users := (users s2)(sid := None) \<rparr>, out))
               else Some (s\<lparr> users := (users s)(sid := None) \<rparr>, [])))"

text \<open>
  A socket that closes has left every socket.io room by the time its \<open>disconnect\<close>
  listeners run.
\<close>

definition disconnect ::
  "state \<Rightarrow> jsstring \<Rightarrow> jsstring \<Rightarrow> jsstring \<Rightarrow> (state \<times> emission list) option" where
  "disconnect s sid mid now = disconnect_handler (leave_all s sid) sid mid now"

section \<open>Sequences of inbound events\<close>

text \<open>
  An event of a socket. \<open>join\<close>, \<open>chatMessage\<close> and \<open>typing\<close> carry a payload object
  whose fields are strings or absent; the client may also emit them with no payload
  (\<open>undefined\<close> or \<open>null\<close>), the last three constructors.
\<close>

datatype op =
    Connection jsstring
  | Join jsstring "jsstring option" "jsstring option" jsstring jsstring jsstring
  | ChatMessage jsstring "jsstring option" "jsstring option" jsstring jsstring
  | Typing jsstring "jsstring option" bool
  | Disconnect jsstring jsstring jsstring
  | JoinNoPayload jsstring
  | ChatMessageNoPayload jsstring
  | TypingNoPayload jsstring

text \<open>
  The three listeners destructure their payload in the parameter list
  (\<open>({ username, room })\<close>, line 38; \<open>({ message, room })\<close>, line 108;
  \<open>({ room, isTyping })\<close>, line 153), before the body and so outside its \<open>try\<close>. With
  no payload that is a TypeError nothing catches: the process ends, the value \<open>None\<close>.
\<close>

fun step :: "state \<Rightarrow> op \<Rightarrow> (state \<times> emission list) option" where
  "step s (Connection sid) = Some (connection s sid)"
| "step s (Join sid username room uid mid now) = Some (join s sid username room uid mid now)"
| "step s (ChatMessage sid message room mid now) = Some (chatMessage s sid message room mid now)"
| "step s (Typing sid room isTyping) = Some (typing s sid room isTyping)"
| "step s (Disconnect sid mid now) = disconnect s sid mid now"
| "step s (JoinNoPayload sid) = None"
| "step s (ChatMessageNoPayload sid) = None"
| "step s (TypingNoPayload sid) = None"

fun carries_payload :: "op \<Rightarrow> bool" where
  "carries_payload (JoinNoPayload sid) = False"
| "carries_payload (ChatMessageNoPayload sid) = False"
| "carries_payload (TypingNoPayload sid) = False"
| "carries_payload _ = True"

text \<open>Running a list of events from a state; an uncaught exception ends the process.\<close>

fun run :: "state \<Rightarrow> op list \<Rightarrow> (state \<times> emission list) option" where
  "run s [] = Some (s, [])"
| "run s (x # xs) =
     (case step s x of
        None \<Rightarrow> None
      | Some (s1, out1) \<Rightarrow>
          (case run s1 xs of None \<Rightarrow> None | Some (s2, out2) \<Rightarrow> Some (s2, out1 @ out2)))"

section \<open>Reading the state\<close>

text \<open>
  The log of a room as the read-only interface returns it (\<open>messages.get(room) || []\<close>,
  line 219), and the member set of a room.
\<close>

definition log_of :: "state \<Rightarrow> jsstring \<Rightarrow> message list" where
  "log_of s r = (case messages s r of None \<Rightarrow> [] | Some log \<Rightarrow> log)"

definition members_of :: "state \<Rightarrow> jsstring \<Rightarrow> jsstring list" where
  "members_of s r = (case rooms s r of None \<Rightarrow> [] | Some members \<Rightarrow> members)"

section \<open>The error taxonomy of the specification\<close>

text \<open>
  The specification names the errors; the server reports each as an \<open>error\<close> event with
  a fixed text. \<open>InvalidInput\<close> is reported with one of two texts, the failure caught by
  the \<open>catch\<close> of the message handler with a generic one.
\<close>

datatype join_error = InvalidInput_Required | InvalidInput_TooLong

fun join_error_event :: "join_error \<Rightarrow> event" where
  "join_error_event InvalidInput_Required = Error (js ''Username and room are required'')"
| "join_error_event InvalidInput_TooLong = Error (js ''Username too long (max 20 chars)'')"

datatype send_error = NotJoined | InvalidMessage | TooLong | InternalFailure

fun send_error_event :: "send_error \<Rightarrow> event" where
  "send_error_event NotJoined = Error (js ''User not found'')"
| "send_error_event InvalidMessage = Error (js ''Message cannot be empty'')"
| "send_error_event TooLong = Error (js ''Message too long (max 1000 chars)'')"
| "send_error_event InternalFailure = Error (js ''Failed to send message'')"

section \<open>The message history the specification describes\<close>

text \<open>
  The specification's engine, reduced to what decides the log of one room: a registry
  from connections to session identities, and for each operation the messages it appends.
  An accepted join (username and room present and non-empty, username of at most 20
  characters) registers the session and appends the system message
  \<open>"{username} has joined the room"\<close>; an accepted send (a session, and a text whose
  trimmed form is non-empty and which has at most 1000 characters) appends a chat message
  by the session's identity with the trimmed text; a disconnect of a connection with a
  session removes the session and appends \<open>"{username} has left the room"\<close>; typing and
  every rejected operation append nothing.
\<close>

fun spec_step :: "(jsstring \<rightharpoonup> author) \<Rightarrow> op \<Rightarrow> (jsstring \<rightharpoonup> author) \<times> message list" where
  "spec_step reg (Connection c) = (reg, [])"
| "spec_step reg (Join c username room uid mid now) =
     (case (username, room) of
        (Some un, Some r) \<Rightarrow>
          if un \<noteq> [] \<and> r \<noteq> [] \<and> length un \<le> 20 then
            (reg(c \<mapsto> \<lparr> author_id = uid, author_username = un \<rparr>),
             [\<lparr> msg_id = mid, msg_user = \<lparr> author_id = js ''system'', author_username = js ''System'' \<rparr>,
                msg_text = un @ js '' has joined the room'', msg_timestamp = now, msg_type = TSystem \<rparr>])
          else (reg, [])
      | _ \<Rightarrow> (reg, []))"
| "spec_step reg (ChatMessage c message room mid now) =
     (case (reg c, message) of
        (Some a, Some text) \<Rightarrow>
          if trim text \<noteq> [] \<and> length text \<le> 1000 then
            (reg, [\<lparr> msg_id = mid, msg_user = a, msg_text = trim text,
                     msg_timestamp = now, msg_type = TMessage \<rparr>])
          else (reg, [])
      | _ \<Rightarrow> (reg, []))"
| "spec_step reg (Typing c room isTyping) = (reg, [])"
| "spec_step reg (Disconnect c mid now) =
     (case reg c of
        None \<Rightarrow> (reg, [])
      | Some a \<Rightarrow>
          (reg(c := None),
           [\<lparr> msg_id = mid, msg_user = \<lparr> author_id = js ''system'', author_username = js ''System'' \<rparr>,
              msg_text = author_username a @ js '' has left the room'', msg_timestamp = now,
              msg_type = TSystem \<rparr>]))"
| "spec_step reg (JoinNoPayload c) = (reg, [])"
| "spec_step reg (ChatMessageNoPayload c) = (reg, [])"
| "spec_step reg (TypingNoPayload c) = (reg, [])"

fun spec_log :: "(jsstring \<rightharpoonup> author) \<Rightarrow> op list \<Rightarrow> message list" where
  "spec_log reg [] = []"
| "spec_log reg (x # xs) = snd (spec_step reg x) @ spec_log (fst (spec_step reg x)) xs"

text \<open>
  An operation targets room \<open>r\<close> when the room it names, if it names one for the log, is
  \<open>r\<close>. An event without a payload is no operation on a room.
\<close>

fun targets :: "jsstring \<Rightarrow> op \<Rightarrow> bool" where
  "targets r (Join c username room uid mid now) = (room = Some r)"
| "targets r (ChatMessage c message room mid now) = (room = Some r)"
| "targets r (JoinNoPayload c) = False"
| "targets r (ChatMessageNoPayload c) = False"
| "targets r (TypingNoPayload c) = False"
| "targets r _ = True"

text \<open>The registry the server's \<open>users\<close> map stands for: the identity of each session.\<close>

definition session_identity :: "user \<Rightarrow> author" where
  "session_identity u = \<lparr> author_id = user_id u, author_username = user_username u \<rparr>"

definition registry :: "state \<Rightarrow> (jsstring \<rightharpoonup> author)" where
  "registry s c = map_option session_identity (users s c)"

text \<open>Every session of the state is in room \<open>r\<close>.\<close>

definition sessions_in :: "jsstring \<Rightarrow> state \<Rightarrow> bool" where
  "sessions_in r s \<longleftrightarrow> (\<forall>c u. users s c = Some u \<longrightarrow> user_room u = r)"

section \<open>Example sessions\<close>

text \<open>
  Three sockets connect; Alice joins \<open>general\<close> on the first and Bob joins \<open>general\<close>
  on the second. \<open>two_in_general\<close> is the state the server is in afterwards.
\<close>

definition alice :: user where
  "alice = \<lparr> user_id = js ''u1'', user_username = js ''Alice'', user_room = js ''general'',
             user_socketId = js ''c1'' \<rparr>"

definition bob :: user where
  "bob = \<lparr> user_id = js ''u2'', user_username = js ''Bob'', user_room = js ''general'',
           user_socketId = js ''c2'' \<rparr>"

definition example_two_in_general :: "op list" where
  "example_two_in_general =
     [Connection (js ''c1''), Connection (js ''c2''), Connection (js ''c3''),
      Join (js ''c1'') (Some (js ''Alice'')) (Some (js ''general'')) (js ''u1'') (js ''m1'') (js ''t1''),
      Join (js ''c2'') (Some (js ''Bob'')) (Some (js ''general'')) (js ''u2'') (js ''m2'') (js ''t2'')]"

definition two_in_general :: state where
  "two_in_general =
     \<lparr> users = [js ''c1'' \<mapsto> alice, js ''c2'' \<mapsto> bob],
       rooms = [js ''general'' \<mapsto> [js ''c1'', js ''c2'']],
       messages = [js ''general'' \<mapsto>
         [welcome_message (js ''Alice'') (js ''m1'') (js ''t1''),
          welcome_message (js ''Bob'') (js ''m2'') (js ''t2'')]],
       adapter = (\<lambda>_. [])
         (js ''c1'' := [js ''c1''], js ''c2'' := [js ''c2''], js ''c3'' := [js ''c3''],
          js ''general'' := [js ''c1'', js ''c2'']) \<rparr>"

text \<open>The same, with Bob in \<open>random\<close> instead.\<close>

definition example_two_rooms :: "op list" where
  "example_two_rooms =
     [Connection (js ''c1''), Connection (js ''c2''),
      Join (js ''c1'') (Some (js ''Alice'')) (Some (js ''general'')) (js ''u1'') (js ''m1'') (js ''t1''),
      Join (js ''c2'') (Some (js ''Bob'')) (Some (js ''random'')) (js ''u2'') (js ''m2'') (js ''t2'')]"

definition two_rooms :: state where
  "two_rooms =
     \<lparr> users = [js ''c1'' \<mapsto> alice, js ''c2'' \<mapsto> bob\<lparr> user_room := js ''random'' \<rparr>],
       rooms = [js ''general'' \<mapsto> [js ''c1''], js ''random'' \<mapsto> [js ''c2'']],
       messages = [js ''general'' \<mapsto> [welcome_message (js ''Alice'') (js ''m1'') (js ''t1'')],
                   js ''random'' \<mapsto> [welcome_message (js ''Bob'') (js ''m2'') (js ''t2'')]],
       adapter = (\<lambda>_. [])
         (js ''c1'' := [js ''c1''], js ''c2'' := [js ''c2''],
          js ''general'' := [js ''c1''], js ''random'' := [js ''c2'']) \<rparr>"

text \<open>One socket joins \<open>general\<close> and then, without disconnecting, \<open>random\<close>.\<close>

definition example_rejoin :: "op list" where
  "example_rejoin =
     [Connection (js ''c1''),
      Join (js ''c1'') (Some (js ''Alice'')) (Some (js ''general'')) (js ''u1'') (js ''m1'') (js ''t1''),
      Join (js ''c1'') (Some (js ''Alice'')) (Some (js ''random'')) (js ''u2'') (js ''m2'') (js ''t2'')]"



fun is_error :: "event \<Rightarrow> bool" where
  "is_error (Error text) = True"
| "is_error _ = False"

section \<open>Consistency of the maps\<close>

text \<open>
  What the handlers keep true of the state: a socket with a session is in the member set
  of the session's room and has joined that room in socket.io; a room with a member set
  has a log; no socket is twice in a socket.io room.
\<close>

definition consistent :: "state \<Rightarrow> bool" where
  "consistent s \<longleftrightarrow>
     (\<forall>c u. users s c = Some u \<longrightarrow>
        c \<in> set (members_of s (user_room u)) \<and> c \<in> set (adapter s (user_room u))) \<and>
     (\<forall>r. rooms s r \<noteq> None \<longrightarrow> messages s r \<noteq> None) \<and>
     (\<forall>r. distinct (adapter s r))"

section \<open>String literals\<close>

lemma unat_of_char: "unat (of_char c :: 16 word) = of_char c"
proof -
  have lt: "(of_char c :: nat) < 65536"
    using nat_of_char_less_256[of c] by linarith
  have "unat (of_nat (of_char c) :: 16 word) = of_char c"
    using lt by (simp add: unat_of_nat)
  then show ?thesis by (simp only: of_nat_of_char)
qed

lemma js_eq_iff [simp]: "js a = js b \<longleftrightarrow> a = b"
proof -
  have "inj (of_char :: char \<Rightarrow> 16 word)"
  proof (rule injI)
    fix c d :: char
    assume "(of_char c :: 16 word) = of_char d"
    then have "unat (of_char c :: 16 word) = unat (of_char d :: 16 word)" by simp
    then show "c = d"
      by (simp add: unat_of_char)
  qed
  then show ?thesis by (simp add: js_def inj_map_eq_map)
qed

lemma js_Nil_iff [simp]: "js a = [] \<longleftrightarrow> a = []" "[] = js a \<longleftrightarrow> a = []"
  by (auto simp add: js_def)

lemma length_js [simp]: "length (js a) = length a"
  by (simp add: js_def)

section \<open>The handlers in closed form\<close>

lemma trim_Nil [simp]: "trim [] = []"
  by (simp add: trim_def)

lemma join_required:
  "falsy username \<or> falsy room \<Longrightarrow>
   join s sid username room uid mid now = (s, [([sid], join_error_event InvalidInput_Required)])"
  by (simp add: join_def socket_emit_def)

lemma join_too_long:
  "un \<noteq> [] \<Longrightarrow> r \<noteq> [] \<Longrightarrow> length un > 20 \<Longrightarrow>
   join s sid (Some un) (Some r) uid mid now = (s, [([sid], join_error_event InvalidInput_TooLong)])"
  by (simp add: join_def socket_emit_def)

lemma join_accepts:
  assumes "un \<noteq> []" "r \<noteq> []" "length un \<le> 20"
  shows "join s sid (Some un) (Some r) uid mid now =
    (\<lparr> users = (users s)(sid \<mapsto> \<lparr> user_id = uid, user_username = un, user_room = r, user_socketId = sid \<rparr>),
       rooms = (rooms s)(r \<mapsto> set_add (members_of s r) sid),
       messages = (messages s)(r \<mapsto> log_of s r @ [welcome_message un mid now]),
       adapter = (adapter s)(r := set_add (adapter s r) sid) \<rparr>,
     [([sid], Joined \<lparr> user_id = uid, user_username = un, user_room = r, user_socketId = sid \<rparr> r
                (log_of s r @ [welcome_message un mid now])
                (map ((users s)(sid \<mapsto> \<lparr> user_id = uid, user_username = un, user_room = r, user_socketId = sid \<rparr>))
                     (set_add (members_of s r) sid))),
      (filter (\<lambda>x. x \<notin> set (((adapter s)(r := set_add (adapter s r) sid)) sid))
         (set_add (adapter s r) sid),
       UserJoined \<lparr> user_id = uid, user_username = un, user_room = r, user_socketId = sid \<rparr>
                  (welcome_message un mid now))])"
  using assms
  by (cases s) (simp add: join_def Let_def log_of_def members_of_def socket_join_def socket_emit_def socket_to_emit_def split: option.splits)

lemma chat_not_joined:
  "users s sid = None \<Longrightarrow>
   chatMessage s sid message room mid now = (s, [([sid], send_error_event NotJoined)])"
  by (simp add: chatMessage_def socket_emit_def)

lemma chat_empty:
  "users s sid = Some u \<Longrightarrow> falsy message \<or> (\<exists>m. message = Some m \<and> trim m = []) \<Longrightarrow>
   chatMessage s sid message room mid now = (s, [([sid], send_error_event InvalidMessage)])"
  by (auto simp add: chatMessage_def socket_emit_def split: option.splits)

lemma chat_too_long:
  "users s sid = Some u \<Longrightarrow> trim m \<noteq> [] \<Longrightarrow> length m > 1000 \<Longrightarrow>
   chatMessage s sid (Some m) room mid now = (s, [([sid], send_error_event TooLong)])"
  by (auto simp add: chatMessage_def socket_emit_def MAX_MESSAGE_LENGTH_def split: option.splits)

lemma chat_no_log:
  "users s sid = Some u \<Longrightarrow> trim m \<noteq> [] \<Longrightarrow> length m \<le> 1000 \<Longrightarrow>
   room = None \<or> (\<exists>r. room = Some r \<and> messages s r = None) \<Longrightarrow>
   chatMessage s sid (Some m) room mid now = (s, [([sid], send_error_event InternalFailure)])"
  by (auto simp add: chatMessage_def socket_emit_def MAX_MESSAGE_LENGTH_def Let_def split: option.splits)

lemma chat_accepts:
  "users s sid = Some u \<Longrightarrow> trim m \<noteq> [] \<Longrightarrow> length m \<le> 1000 \<Longrightarrow> messages s r = Some log \<Longrightarrow>
   chatMessage s sid (Some m) (Some r) mid now =
     (s\<lparr> messages := (messages s)(r \<mapsto> log @ [chat_message u m mid now]) \<rparr>,
      [(adapter s r, NewMessage (chat_message u m mid now))])"
  by (auto simp add: chatMessage_def io_to_emit_def MAX_MESSAGE_LENGTH_def Let_def split: option.splits)

lemma disconnect_no_session:
  "users s sid = None \<Longrightarrow> disconnect s sid mid now = Some (leave_all s sid, [])"
  by (simp add: disconnect_def disconnect_handler_def leave_all_def)

lemma disconnect_member:
  "users s sid = Some u \<Longrightarrow> rooms s (user_room u) = Some ms \<Longrightarrow> sid \<in> set ms \<Longrightarrow>
   messages s (user_room u) = Some log \<Longrightarrow>
   disconnect s sid mid now =
     Some (\<lparr> users = (users s)(sid := None),
             rooms = (rooms s)(user_room u \<mapsto> set_delete ms sid),
             messages = (messages s)(user_room u \<mapsto> log @ [leave_message (user_username u) mid now]),
             adapter = (\<lambda>r. set_delete (adapter s r) sid) \<rparr>,
           [(filter (\<lambda>x. x \<notin> set (set_delete (adapter s sid) sid))
               (set_delete (adapter s (user_room u)) sid),
             UserLeft (user_id u) (user_username u) (leave_message (user_username u) mid now))])"
  by (cases s) (simp add: disconnect_def disconnect_handler_def leave_all_def Let_def socket_to_emit_def set_delete_def)

section \<open>The handlers keep the maps consistent\<close>

lemma set_set_add [simp]: "set (set_add xs x) = insert x (set xs)"
  by (auto simp: set_add_def)

lemma distinct_set_add [simp]: "distinct xs \<Longrightarrow> distinct (set_add xs x)"
  by (simp add: set_add_def)

lemma set_set_delete [simp]: "set (set_delete xs x) = set xs - {x}"
  by (auto simp: set_delete_def)

lemma distinct_set_delete [simp]: "distinct xs \<Longrightarrow> distinct (set_delete xs x)"
  by (simp add: set_delete_def)

lemma members_of_Some: "rooms s r = Some ms \<Longrightarrow> members_of s r = ms"
  by (simp add: members_of_def)

lemma members_of_update [simp]:
  "members_of \<lparr> users = a, rooms = (rooms s)(r \<mapsto> ms), messages = b, adapter = c \<rparr> r' =
     (if r' = r then ms else members_of s r')"
  by (simp add: members_of_def)

lemma consistent_member:
  "consistent s \<Longrightarrow> users s c = Some u \<Longrightarrow> c \<in> set (members_of s (user_room u))"
  by (simp add: consistent_def)

lemma consistent_joined:
  "consistent s \<Longrightarrow> users s c = Some u \<Longrightarrow> c \<in> set (adapter s (user_room u))"
  by (simp add: consistent_def)

lemma consistent_log:
  "consistent s \<Longrightarrow> rooms s r = Some ms \<Longrightarrow> \<exists>log. messages s r = Some log"
  by (auto simp add: consistent_def)

lemma consistent_distinct: "consistent s \<Longrightarrow> distinct (adapter s r)"
  by (simp add: consistent_def)

lemma consistent_init: "consistent init"
  by (simp add: consistent_def init_def members_of_def)

lemma join_cases:
  obtains (rejected) e where "join s sid username room uid mid now = (s, [([sid], join_error_event e)])"
  | (accepted) un r where "username = Some un" "room = Some r" "un \<noteq> []" "r \<noteq> []" "length un \<le> 20"
proof (cases "falsy username \<or> falsy room")
  case True
  then show ?thesis using join_required rejected by blast
next
  case False
  then obtain un r where ur: "username = Some un" "room = Some r" "un \<noteq> []" "r \<noteq> []"
    by (cases username; cases room) auto
  show ?thesis
  proof (cases "length un > 20")
    case True
    with ur show ?thesis using join_too_long rejected by blast
  next
    case False
    with ur show ?thesis using accepted by simp
  qed
qed

lemma consistent_join:
  assumes "consistent s" "join s sid username room uid mid now = (s', out)"
  shows "consistent s'"
proof (cases rule: join_cases[of s sid username room uid mid now])
  case (rejected e)
  with assms show ?thesis by simp
next
  case (accepted un r)
  have s': "s' = fst (join s sid (Some un) (Some r) uid mid now)"
    using assms(2) accepted by simp
  show ?thesis
    using assms(1) accepted(3-5)
    unfolding s' consistent_def
    by (auto simp: join_accepts members_of_def)
qed

lemma chat_cases:
  obtains (rejected) e where "chatMessage s sid message room mid now = (s, [([sid], send_error_event e)])"
  | (accepted) u m r log where "users s sid = Some u" "message = Some m" "room = Some r"
      "trim m \<noteq> []" "length m \<le> 1000" "messages s r = Some log"
proof (cases "users s sid")
  case None
  then show ?thesis using chat_not_joined rejected by blast
next
  case (Some u)
  show ?thesis
  proof (cases "falsy message \<or> (\<exists>m. message = Some m \<and> trim m = [])")
    case True
    with Some show ?thesis using chat_empty rejected by blast
  next
    case False
    then obtain m where m: "message = Some m" "trim m \<noteq> []"
      by (cases message) auto
    show ?thesis
    proof (cases "length m > 1000")
      case True
      with Some m show ?thesis using chat_too_long rejected by blast
    next
      case False
      show ?thesis
      proof (cases "room = None \<or> (\<exists>r. room = Some r \<and> messages s r = None)")
        case True
        with Some m False have "chatMessage s sid message room mid now = (s, [([sid], send_error_event InternalFailure)])"
          using chat_no_log[of s sid u m room mid now] by simp
        then show ?thesis using rejected by blast
      next
        case nolog: False
        then obtain r log where "room = Some r" "messages s r = Some log" by auto
        with Some m False show ?thesis using accepted by simp
      qed
    qed
  qed
qed

lemma consistent_chat:
  assumes "consistent s" "chatMessage s sid message room mid now = (s', out)"
  shows "consistent s'"
proof (cases rule: chat_cases[of s sid message room mid now])
  case (rejected e)
  with assms show ?thesis by simp
next
  case (accepted u m r log)
  have s': "s' = s\<lparr> messages := (messages s)(r \<mapsto> log @ [chat_message u m mid now]) \<rparr>"
    using assms(2) accepted chat_accepts[of s sid u m r log mid now] by simp
  show ?thesis
    using assms(1) unfolding s' consistent_def
    by (auto simp: members_of_def)
qed

lemma consistent_leave_all:
  assumes "consistent s" "users s sid = None"
  shows "consistent (leave_all s sid)"
  using assms unfolding consistent_def leave_all_def
  by (auto simp: members_of_def)

lemma disconnect_cases:
  assumes "consistent s"
  shows "users s sid = None \<or>
    (\<exists>u ms log. users s sid = Some u \<and> rooms s (user_room u) = Some ms \<and> sid \<in> set ms \<and>
       messages s (user_room u) = Some log)"
proof (cases "users s sid")
  case None
  then show ?thesis by simp
next
  case (Some u)
  with assms have "sid \<in> set (members_of s (user_room u))"
    by (simp add: consistent_def)
  then obtain ms where ms: "rooms s (user_room u) = Some ms" "sid \<in> set ms"
    by (cases "rooms s (user_room u)") (auto simp: members_of_def)
  with assms obtain log where "messages s (user_room u) = Some log"
    by (auto simp: consistent_def)
  with Some ms show ?thesis by simp
qed

lemma members_of_rooms_update:
  "rooms s' = (rooms s)(r \<mapsto> ms) \<Longrightarrow>
   members_of s' r' = (if r' = r then ms else members_of s r')"
  by (simp add: members_of_def)

lemma consistent_disconnect:
  assumes "consistent s" "disconnect s sid mid now = Some (s', out)"
  shows "consistent s'"
proof -
  from disconnect_cases[OF assms(1), of sid] show ?thesis
  proof (elim disjE exE conjE)
    assume "users s sid = None"
    with assms show ?thesis
      by (auto simp add: disconnect_no_session consistent_leave_all)
  next
    fix u ms log
    assume member: "users s sid = Some u" "rooms s (user_room u) = Some ms" "sid \<in> set ms"
      "messages s (user_room u) = Some log"
    from assms(2) have U: "users s' = (users s)(sid := None)"
      and R: "rooms s' = (rooms s)(user_room u \<mapsto> set_delete ms sid)"
      and M: "messages s' = (messages s)(user_room u \<mapsto> log @ [leave_message (user_username u) mid now])"
      and A: "adapter s' = (\<lambda>r. set_delete (adapter s r) sid)"
      unfolding disconnect_member[OF member] by auto
    have ms: "members_of s (user_room u) = ms"
      using member(2) by (rule members_of_Some)
    show ?thesis
      unfolding consistent_def
    proof (intro conjI allI impI)
      fix c v
      assume "users s' c = Some v"
      then have c: "c \<noteq> sid" "users s c = Some v"
        using U by (auto split: if_splits)
      from consistent_member[OF assms(1) c(2)] c(1) ms
      show "c \<in> set (members_of s' (user_room v))"
        by (auto simp add: members_of_rooms_update[OF R])
      from consistent_joined[OF assms(1) c(2)] c(1)
      show "c \<in> set (adapter s' (user_room v))"
        by (simp add: A)
    next
      fix r
      assume "rooms s' r \<noteq> None"
      then show "messages s' r \<noteq> None"
        using assms(1) by (auto simp: R M consistent_def split: if_splits)
    next
      fix r
      show "distinct (adapter s' r)"
        using consistent_distinct[OF assms(1)] by (simp add: A)
    qed
  qed
qed

lemma consistent_step:
  assumes "consistent s" "step s x = Some (s', out)"
  shows "consistent s'"
proof (cases x)
  case (Connection sid)
  with assms show ?thesis
    by (auto simp: connection_def socket_join_def consistent_def members_of_def)
next
  case (Join sid username room uid mid now)
  with assms show ?thesis using consistent_join by auto
next
  case (ChatMessage sid message room mid now)
  with assms show ?thesis using consistent_chat by auto
next
  case (Typing sid room isTyping)
  with assms show ?thesis by (auto simp: typing_def split: option.splits)
next
  case (Disconnect sid mid now)
  with assms show ?thesis using consistent_disconnect by auto
qed (use assms in simp_all)

lemma step_total:
  assumes "consistent s" "carries_payload x"
  shows "\<exists>s' out. step s x = Some (s', out)"
proof (cases x)
  case (Disconnect sid mid now)
  from disconnect_cases[OF assms(1), of sid] show ?thesis
  proof (elim disjE exE conjE)
    assume "users s sid = None"
    then show ?thesis using Disconnect by (simp add: disconnect_no_session)
  next
    fix u ms log
    assume member: "users s sid = Some u" "rooms s (user_room u) = Some ms" "sid \<in> set ms"
      "messages s (user_room u) = Some log"
    then show ?thesis using Disconnect by (simp add: disconnect_member[OF member])
  qed
qed (use assms(2) in \<open>auto intro: prod.exhaust\<close>)

lemma run_total:
  "consistent s \<Longrightarrow> list_all carries_payload xs \<Longrightarrow> \<exists>s' out. run s xs = Some (s', out)"
proof (induction xs arbitrary: s)
  case Nil
  then show ?case by simp
next
  case (Cons x xs)
  from Cons.prems have p: "carries_payload x" "list_all carries_payload xs" by simp_all
  from step_total[OF Cons.prems(1) p(1)] obtain s1 out1 where st: "step s x = Some (s1, out1)" by blast
  with Cons.prems have "consistent s1" using consistent_step by blast
  from Cons.IH[OF this p(2)] obtain s2 out2 where "run s1 xs = Some (s2, out2)" by blast
  with st show ?case by simp
qed

lemma consistent_run:
  "consistent s \<Longrightarrow> run s xs = Some (s', out) \<Longrightarrow> consistent s'"
proof (induction xs arbitrary: s out)
  case Nil
  then show ?case by simp
next
  case (Cons x xs)
  then show ?case
    by (auto split: option.splits prod.splits dest: consistent_step)
qed

section \<open>Each step against the specification's history\<close>

lemma log_of_Some: "messages s r = Some log \<Longrightarrow> log_of s r = log"
  by (simp add: log_of_def)

lemma registry_users_eq: "users s' = users s \<Longrightarrow> registry s' = registry s"
  by (rule ext) (simp add: registry_def)

lemma sessions_in_users_eq: "users s' = users s \<Longrightarrow> sessions_in r s' = sessions_in r s"
  by (simp add: sessions_in_def)

lemma log_of_messages_eq: "messages s' = messages s \<Longrightarrow> log_of s' r = log_of s r"
  by (simp add: log_of_def)

lemma session_has_log:
  assumes "consistent s" "users s c = Some u"
  shows "\<exists>log. messages s (user_room u) = Some log"
proof -
  from consistent_member[OF assms] obtain ms where "rooms s (user_room u) = Some ms"
    by (cases "rooms s (user_room u)") (auto simp: members_of_def)
  from consistent_log[OF assms(1) this] show ?thesis .
qed

lemma sim_connection:
  "step s (Connection sid) = Some (s', out) \<Longrightarrow>
   registry s' = registry s \<and> sessions_in r s' = sessions_in r s \<and> log_of s' r = log_of s r"
proof -
  assume "step s (Connection sid) = Some (s', out)"
  then have s': "s' = socket_join s sid sid" by (simp add: connection_def)
  have "users s' = users s" "messages s' = messages s"
    by (simp_all add: s' socket_join_def)
  then show ?thesis
    using registry_users_eq[of s' s] sessions_in_users_eq[of s' s r] log_of_messages_eq[of s' s r]
    by simp
qed

lemma sim_typing:
  "step s (Typing sid room isTyping) = Some (s', out) \<Longrightarrow> s' = s"
  by (auto simp: typing_def split: option.splits)

lemma sim_join:
  assumes "sessions_in r s"
  shows "\<exists>s' out. join s sid username (Some r) uid mid now = (s', out) \<and>
     registry s' = fst (spec_step (registry s) (Join sid username (Some r) uid mid now)) \<and>
     sessions_in r s' \<and>
     log_of s' r = log_of s r @ snd (spec_step (registry s) (Join sid username (Some r) uid mid now))"
proof (cases "\<exists>un. username = Some un \<and> un \<noteq> [] \<and> r \<noteq> [] \<and> length un \<le> 20")
  case True
  then obtain un where un: "username = Some un" "un \<noteq> []" "r \<noteq> []" "length un \<le> 20" by blast
  let ?s' = "fst (join s sid (Some un) (Some r) uid mid now)"
  have U: "users ?s' = (users s)(sid \<mapsto> \<lparr> user_id = uid, user_username = un, user_room = r, user_socketId = sid \<rparr>)"
    and M: "messages ?s' = (messages s)(r \<mapsto> log_of s r @ [welcome_message un mid now])"
    by (simp_all add: join_accepts[OF un(2-4)])
  have "registry ?s' = (registry s)(sid \<mapsto> \<lparr> author_id = uid, author_username = un \<rparr>)"
    by (rule ext) (simp add: registry_def U session_identity_def)
  moreover have "sessions_in r ?s'"
    using assms by (auto simp: sessions_in_def U)
  moreover have "log_of ?s' r = log_of s r @ [welcome_message un mid now]"
    by (simp add: log_of_def M)
  moreover have "join s sid username (Some r) uid mid now = (?s', snd (join s sid (Some un) (Some r) uid mid now))"
    using un(1) by simp
  moreover have "spec_step (registry s) (Join sid username (Some r) uid mid now) =
      ((registry s)(sid \<mapsto> \<lparr> author_id = uid, author_username = un \<rparr>), [welcome_message un mid now])"
    using un by (simp add: welcome_message_def system_message_def system_author_def)
  ultimately show ?thesis
    by (intro exI[of _ ?s'] exI[of _ "snd (join s sid (Some un) (Some r) uid mid now)"]) simp
next
  case False
  then have "\<exists>e. join s sid username (Some r) uid mid now = (s, [([sid], join_error_event e)])"
  proof (cases rule: join_cases[of s sid username "Some r" uid mid now])
    case (rejected e)
    then show ?thesis by blast
  next
    case (accepted un r')
    with False show ?thesis by auto
  qed
  moreover from False have "spec_step (registry s) (Join sid username (Some r) uid mid now) = (registry s, [])"
    by (cases username) auto
  ultimately show ?thesis using assms by auto
qed

lemma sim_chat:
  assumes "consistent s" "sessions_in r s"
  shows "\<exists>s' out. chatMessage s sid message (Some r) mid now = (s', out) \<and>
     registry s' = fst (spec_step (registry s) (ChatMessage sid message (Some r) mid now)) \<and>
     sessions_in r s' \<and>
     log_of s' r = log_of s r @ snd (spec_step (registry s) (ChatMessage sid message (Some r) mid now))"
proof (cases "\<exists>u m. users s sid = Some u \<and> message = Some m \<and> trim m \<noteq> [] \<and> length m \<le> 1000")
  case True
  then obtain u m where um: "users s sid = Some u" "message = Some m" "trim m \<noteq> []" "length m \<le> 1000"
    by blast
  from assms(2) um(1) have r: "user_room u = r" by (simp add: sessions_in_def)
  from session_has_log[OF assms(1) um(1)] r obtain log where log: "messages s r = Some log" by auto
  let ?s' = "s\<lparr> messages := (messages s)(r \<mapsto> log @ [chat_message u m mid now]) \<rparr>"
  have c: "chatMessage s sid message (Some r) mid now = (?s', [(adapter s r, NewMessage (chat_message u m mid now))])"
    using chat_accepts[OF um(1,3,4) log] um(2) by simp
  have "registry ?s' = registry s" by (rule registry_users_eq) simp
  moreover have "sessions_in r ?s'" using assms(2) by (simp add: sessions_in_def)
  moreover have "log_of ?s' r = log_of s r @ [chat_message u m mid now]"
    using log by (simp add: log_of_def)
  moreover have "spec_step (registry s) (ChatMessage sid message (Some r) mid now) =
      (registry s, [chat_message u m mid now])"
    using um by (simp add: registry_def chat_message_def session_identity_def)
  ultimately show ?thesis using c
    by (intro exI[of _ ?s'] exI[of _ "[(adapter s r, NewMessage (chat_message u m mid now))]"]) simp
next
  case False
  have "\<exists>e. chatMessage s sid message (Some r) mid now = (s, [([sid], send_error_event e)])"
  proof (cases rule: chat_cases[of s sid message "Some r" mid now])
    case (rejected e)
    then show ?thesis by blast
  next
    case (accepted u m r' log)
    with False show ?thesis by auto
  qed
  moreover from False have "spec_step (registry s) (ChatMessage sid message (Some r) mid now) = (registry s, [])"
    by (cases "users s sid"; cases message) (auto simp: registry_def)
  ultimately show ?thesis using assms by auto
qed

lemma sim_disconnect:
  assumes "consistent s" "sessions_in r s"
  shows "\<exists>s' out. disconnect s sid mid now = Some (s', out) \<and>
     registry s' = fst (spec_step (registry s) (Disconnect sid mid now)) \<and>
     sessions_in r s' \<and>
     log_of s' r = log_of s r @ snd (spec_step (registry s) (Disconnect sid mid now))"
proof -
  from disconnect_cases[OF assms(1), of sid] show ?thesis
  proof (elim disjE exE conjE)
    assume none: "users s sid = None"
    have "registry (leave_all s sid) = registry s"
      by (rule registry_users_eq) (simp add: leave_all_def)
    moreover have "sessions_in r (leave_all s sid)"
      using assms(2) by (simp add: sessions_in_def leave_all_def)
    moreover have "log_of (leave_all s sid) r = log_of s r"
      by (simp add: log_of_def leave_all_def)
    moreover have "spec_step (registry s) (Disconnect sid mid now) = (registry s, [])"
      using none by (simp add: registry_def)
    ultimately show ?thesis by (simp add: disconnect_no_session[OF none])
  next
    fix u ms log
    assume member: "users s sid = Some u" "rooms s (user_room u) = Some ms" "sid \<in> set ms"
      "messages s (user_room u) = Some log"
    from assms(2) member(1) have r: "user_room u = r" by (simp add: sessions_in_def)
    let ?s' = "fst (the (disconnect s sid mid now))"
    have U: "users ?s' = (users s)(sid := None)"
      and M: "messages ?s' = (messages s)(user_room u \<mapsto> log @ [leave_message (user_username u) mid now])"
      by (simp_all add: disconnect_member[OF member])
    have "registry ?s' = (registry s)(sid := None)"
      by (rule ext) (simp add: registry_def U)
    moreover have "sessions_in r ?s'"
      using assms(2) by (auto simp: sessions_in_def U split: if_splits)
    moreover have "log_of ?s' r = log_of s r @ [leave_message (user_username u) mid now]"
      using member(4) r by (simp add: log_of_def M)
    moreover have "spec_step (registry s) (Disconnect sid mid now) =
        ((registry s)(sid := None), [leave_message (user_username u) mid now])"
      using member(1) by (simp add: registry_def leave_message_def system_message_def system_author_def session_identity_def)
    moreover have "disconnect s sid mid now = Some (?s', snd (the (disconnect s sid mid now)))"
      by (simp add: disconnect_member[OF member])
    ultimately show ?thesis
      by (intro exI[of _ ?s'] exI[of _ "snd (the (disconnect s sid mid now))"]) simp
  qed
qed

lemma sim_step:
  assumes "consistent s" "sessions_in r s" "targets r x"
  shows "\<exists>s' out. step s x = Some (s', out) \<and>
     registry s' = fst (spec_step (registry s) x) \<and> sessions_in r s' \<and>
     log_of s' r = log_of s r @ snd (spec_step (registry s) x)"
proof (cases x)
  case (Connection sid)
  obtain s' out where st: "step s (Connection sid) = Some (s', out)" by (simp add: connection_def)
  from sim_connection[OF this, of r] st assms(2) Connection show ?thesis by auto
next
  case (Join sid username room uid mid now)
  with assms(3) have "room = Some r" by simp
  with Join sim_join[OF assms(2), of sid username uid mid now] show ?thesis by auto
next
  case (ChatMessage sid message room mid now)
  with assms(3) have "room = Some r" by simp
  with ChatMessage sim_chat[OF assms(1,2), of sid message mid now] show ?thesis by auto
next
  case (Typing sid room isTyping)
  obtain s' out where st: "step s (Typing sid room isTyping) = Some (s', out)"
    by (cases "typing s sid room isTyping") simp
  from sim_typing[OF this] st assms(2) Typing show ?thesis by auto
next
  case (Disconnect sid mid now)
  with sim_disconnect[OF assms(1,2), of sid mid now] show ?thesis by auto
qed (use assms in simp_all)

lemma sim_run:
  "consistent s \<Longrightarrow> sessions_in r s \<Longrightarrow> \<forall>x\<in>set xs. targets r x \<Longrightarrow>
   \<exists>s' out. run s xs = Some (s', out) \<and> log_of s' r = log_of s r @ spec_log (registry s) xs"
proof (induction xs arbitrary: s)
  case Nil
  then show ?case by simp
next
  case (Cons x xs)
  from Cons.prems have "targets r x" by simp
  from sim_step[OF Cons.prems(1,2) this] obtain s1 out1 where
    st: "step s x = Some (s1, out1)" "registry s1 = fst (spec_step (registry s) x)" "sessions_in r s1"
      "log_of s1 r = log_of s r @ snd (spec_step (registry s) x)" by blast
  have "consistent s1" using consistent_step[OF Cons.prems(1) st(1)] .
  from Cons.IH[OF this st(3)] Cons.prems(3) obtain s2 out2 where
    r2: "run s1 xs = Some (s2, out2)" "log_of s2 r = log_of s1 r @ spec_log (registry s1) xs" by auto
  with st show ?case by simp
qed

section \<open>Rooms and logs only grow\<close>

lemma step_append_only:
  assumes "step s x = Some (s', out)"
  shows "dom (rooms s) \<subseteq> dom (rooms s') \<and>
         (\<forall>r log. messages s r = Some log \<longrightarrow> (\<exists>more. messages s' r = Some (log @ more)))"
proof (cases x)
  case (Connection sid)
  with assms show ?thesis by (auto simp: connection_def socket_join_def)
next
  case (Join sid username room uid mid now)
  show ?thesis
  proof (cases rule: join_cases[of s sid username room uid mid now])
    case (rejected e)
    with assms Join show ?thesis by auto
  next
    case (accepted un r)
    with assms Join have "s' = fst (join s sid (Some un) (Some r) uid mid now)" by simp
    then show ?thesis
      by (auto simp: join_accepts[OF accepted(3-5)] log_of_def)
  qed
next
  case (ChatMessage sid message room mid now)
  show ?thesis
  proof (cases rule: chat_cases[of s sid message room mid now])
    case (rejected e)
    with assms ChatMessage show ?thesis by auto
  next
    case (accepted u m r log)
    with assms ChatMessage have "s' = s\<lparr> messages := (messages s)(r \<mapsto> log @ [chat_message u m mid now]) \<rparr>"
      using chat_accepts[of s sid u m r log mid now] by simp
    with accepted show ?thesis by auto
  qed
next
  case (Typing sid room isTyping)
  with assms show ?thesis by (auto simp: typing_def split: option.splits)
next
  case (Disconnect sid mid now)
  with assms have d: "disconnect_handler (leave_all s sid) sid mid now = Some (s', out)"
    by (simp add: disconnect_def)
  then show ?thesis
    by (auto simp: disconnect_handler_def leave_all_def Let_def split: option.splits if_splits)
qed (use assms in simp_all)

lemma send_error_event_inject [simp]:
  "send_error_event e = send_error_event e' \<longleftrightarrow> e = e'"
  by (cases e; cases e') (simp_all add: js_def)

section \<open>Message history of a room\<close>

text \<open>
  Claim C1. For every sequence of connection, join, send, typing and disconnect events,
  each with its payload, in which every join and every send names the room \<open>r\<close>, the
  server processes the
  whole sequence, and the log of \<open>r\<close> afterwards is the history the specification
  describes: in the order of the operations, the system message of each accepted join,
  the chat message of each accepted send and the system message of each disconnect of a
  connection that had a session; typing and rejected operations contribute nothing.
\<close>

theorem log_is_accepted_history:
  assumes "list_all (targets r) xs"
  shows "\<exists>s out. run init xs = Some (s, out) \<and> log_of s r = spec_log Map.empty xs"
proof -
  have "sessions_in r init" by (simp add: sessions_in_def init_def)
  moreover have "registry init = Map.empty" by (rule ext) (simp add: registry_def init_def)
  moreover have "log_of init r = []" by (simp add: log_of_def init_def)
  moreover have "\<forall>x\<in>set xs. targets r x" using assms by (simp add: list_all_iff)
  ultimately show ?thesis using sim_run[OF consistent_init, of r xs] by simp
qed

theorem log_is_accepted_history_witness:
  "list_all (targets (js ''general''))
     [Join (js ''c1'') (Some (js ''Alice'')) (Some (js ''general'')) (js ''u1'') (js ''m1'') (js ''t1''),
      ChatMessage (js ''c1'') (Some (js '' hi '')) (Some (js ''general'')) (js ''m2'') (js ''t2''),
      Typing (js ''c1'') (Some (js ''general'')) True,
      ChatMessage (js ''c1'') (Some (js ''  '')) (Some (js ''general'')) (js ''m3'') (js ''t3''),
      Disconnect (js ''c1'') (js ''m4'') (js ''t4'')] \<and>
   (\<exists>s out.
      run init [Join (js ''c1'') (Some (js ''Alice'')) (Some (js ''general'')) (js ''u1'') (js ''m1'') (js ''t1''),
                ChatMessage (js ''c1'') (Some (js '' hi '')) (Some (js ''general'')) (js ''m2'') (js ''t2''),
                Typing (js ''c1'') (Some (js ''general'')) True,
                ChatMessage (js ''c1'') (Some (js ''  '')) (Some (js ''general'')) (js ''m3'') (js ''t3''),
                Disconnect (js ''c1'') (js ''m4'') (js ''t4'')] = Some (s, out) \<and>
      log_of s (js ''general'') =
        [welcome_message (js ''Alice'') (js ''m1'') (js ''t1''),
         \<lparr> msg_id = js ''m2'', msg_user = \<lparr> author_id = js ''u1'', author_username = js ''Alice'' \<rparr>,
           msg_text = js ''hi'', msg_timestamp = js ''t2'', msg_type = TMessage \<rparr>,
         leave_message (js ''Alice'') (js ''m4'') (js ''t4'')])"
  using log_is_accepted_history[of "js ''general''"
      "[Join (js ''c1'') (Some (js ''Alice'')) (Some (js ''general'')) (js ''u1'') (js ''m1'') (js ''t1''),
        ChatMessage (js ''c1'') (Some (js '' hi '')) (Some (js ''general'')) (js ''m2'') (js ''t2''),
        Typing (js ''c1'') (Some (js ''general'')) True,
        ChatMessage (js ''c1'') (Some (js ''  '')) (Some (js ''general'')) (js ''m3'') (js ''t3''),
        Disconnect (js ''c1'') (js ''m4'') (js ''t4'')]"]
  by (simp add: js_def trim_def is_white_space_def welcome_message_def leave_message_def
      system_message_def system_author_def)

section \<open>Rejected joins\<close>

text \<open>
  Claim C3. A join whose username or room is absent or empty, or whose username is longer
  than 20, is answered with one \<open>error\<close> event of \<open>InvalidInput\<close>, emitted to the
  joining socket alone, and returns the state it was given: the registry, every member
  set, every log and the socket.io rooms are unchanged.
\<close>

theorem join_invalid_input_no_change:
  assumes "falsy username \<or> falsy room \<or> (\<exists>un. username = Some un \<and> length un > 20)"
  shows "\<exists>e. join s sid username room uid mid now = (s, [([sid], join_error_event e)])"
proof (cases rule: join_cases[of s sid username room uid mid now])
  case (rejected e)
  then show ?thesis by blast
next
  case (accepted un r)
  with assms show ?thesis by auto
qed

theorem join_invalid_input_no_change_witness:
  "(\<exists>un. Some (js ''a very long name indeed'') = Some un \<and> length un > 20) \<and>
   (\<exists>e. join init (js ''c1'') (Some (js ''a very long name indeed'')) (Some (js ''general''))
           (js ''u1'') (js ''m1'') (js ''t1'') =
      (init, [([js ''c1''], join_error_event e)]))"
  using join_invalid_input_no_change[of "Some (js ''a very long name indeed'')" "Some (js ''general'')"
      init "js ''c1''" "js ''u1''" "js ''m1''" "js ''t1''"]
  by (simp add: js_def)

section \<open>Failing sends\<close>

text \<open>
  A send that carries a payload and fails, because the socket has no session, because the
  text is absent, blank or longer than 1000, or because the room named has no log (the
  failure the \<open>catch\<close> handles), is a step of the server that returns, leaves the whole
  state as it was and emits one \<open>error\<close> event, to the sending socket alone; without a
  session that error is \<open>NotJoined\<close>.
\<close>

theorem failing_send_isolated:
  assumes "users s sid = None \<or> falsy message \<or>
           (\<exists>m. message = Some m \<and> (trim m = [] \<or> length m > 1000)) \<or>
           room = None \<or> (\<exists>r. room = Some r \<and> messages s r = None)"
  shows "\<exists>e. step s (ChatMessage sid message room mid now) = Some (s, [([sid], send_error_event e)]) \<and>
             (users s sid = None \<longrightarrow> e = NotJoined)"
proof (cases "users s sid")
  case None
  then show ?thesis by (simp add: chat_not_joined)
next
  case (Some u)
  show ?thesis
  proof (cases rule: chat_cases[of s sid message room mid now])
    case (rejected e)
    with Some show ?thesis by auto
  next
    case (accepted u m r log)
    with assms show ?thesis by auto
  qed
qed

theorem failing_send_isolated_witness:
  "(\<exists>r. Some (js ''nowhere'') = Some r \<and>
        messages (fst (join init (js ''c1'') (Some (js ''Alice'')) (Some (js ''general''))
                         (js ''u1'') (js ''m1'') (js ''t1''))) r = None) \<and>
   step (fst (join init (js ''c1'') (Some (js ''Alice'')) (Some (js ''general''))
                (js ''u1'') (js ''m1'') (js ''t1'')))
        (ChatMessage (js ''c1'') (Some (js ''hi'')) (Some (js ''nowhere'')) (js ''m2'') (js ''t2'')) =
     Some (fst (join init (js ''c1'') (Some (js ''Alice'')) (Some (js ''general''))
                  (js ''u1'') (js ''m1'') (js ''t1'')),
           [([js ''c1''], send_error_event InternalFailure)])"
proof -
  let ?s = "fst (join init (js ''c1'') (Some (js ''Alice'')) (Some (js ''general''))
                   (js ''u1'') (js ''m1'') (js ''t1''))"
  have h: "\<exists>r. Some (js ''nowhere'') = Some r \<and> messages ?s r = None"
    by (simp add: join_accepts js_def init_def)
  then have "users ?s (js ''c1'') = None \<or> falsy (Some (js ''hi'')) \<or>
      (\<exists>m. Some (js ''hi'') = Some m \<and> (trim m = [] \<or> length m > 1000)) \<or>
      Some (js ''nowhere'') = None \<or> (\<exists>r. Some (js ''nowhere'') = Some r \<and> messages ?s r = None)"
    by blast
  from failing_send_isolated[OF this, of "js ''m2''" "js ''t2''"]
  obtain e where e: "step ?s (ChatMessage (js ''c1'') (Some (js ''hi'')) (Some (js ''nowhere''))
      (js ''m2'') (js ''t2'')) = Some (?s, [([js ''c1''], send_error_event e)])" by blast
  have "chatMessage ?s (js ''c1'') (Some (js ''hi'')) (Some (js ''nowhere'')) (js ''m2'') (js ''t2'') =
      (?s, [([js ''c1''], send_error_event InternalFailure)])"
    by (rule chat_no_log[where u = "\<lparr> user_id = js ''u1'', user_username = js ''Alice'',
          user_room = js ''general'', user_socketId = js ''c1'' \<rparr>"])
       (simp_all add: join_accepts js_def init_def trim_def is_white_space_def)
  with e h show ?thesis by simp
qed

section \<open>Rooms persist, logs are append-only\<close>

text \<open>
  Claim C9. Over every sequence of events the server processes, from any state: a room
  that has a member set keeps one (no room name leaves the directory, also when its last
  member disconnects), and the log of every room afterwards is the log before with
  entries added at its end.
\<close>

theorem rooms_persist_logs_append_only:
  assumes "run s xs = Some (s', out)"
  shows "dom (rooms s) \<subseteq> dom (rooms s') \<and>
         (\<forall>r log. messages s r = Some log \<longrightarrow> (\<exists>more. messages s' r = Some (log @ more)))"
  using assms
proof (induction xs arbitrary: s out)
  case Nil
  then show ?case by simp
next
  case (Cons x xs)
  from Cons.prems obtain s1 out1 out2 where
    st: "step s x = Some (s1, out1)" and rn: "run s1 xs = Some (s', out2)"
    by (auto split: option.splits prod.splits)
  from step_append_only[OF st] Cons.IH[OF rn] show ?case
    by (fastforce simp: dom_def)
qed

theorem rooms_persist_logs_append_only_witness:
  "\<exists>s' out.
     run (fst (join init (js ''c1'') (Some (js ''Alice'')) (Some (js ''general''))
                 (js ''u1'') (js ''m1'') (js ''t1'')))
         [Disconnect (js ''c1'') (js ''m2'') (js ''t2'')] = Some (s', out) \<and>
     js ''general'' \<in> dom (rooms s') \<and> members_of s' (js ''general'') = [] \<and>
     (\<exists>more. messages s' (js ''general'') =
        Some ([welcome_message (js ''Alice'') (js ''m1'') (js ''t1'')] @ more))"
proof -
  let ?s = "fst (join init (js ''c1'') (Some (js ''Alice'')) (Some (js ''general''))
                   (js ''u1'') (js ''m1'') (js ''t1''))"
  have ne: "js ''Alice'' \<noteq> []" "js ''general'' \<noteq> []" "length (js ''Alice'') \<le> 20"
    by (simp_all add: js_def)
  have U: "users ?s (js ''c1'') = Some \<lparr> user_id = js ''u1'', user_username = js ''Alice'',
          user_room = js ''general'', user_socketId = js ''c1'' \<rparr>"
    and R: "rooms ?s (js ''general'') = Some [js ''c1'']"
    and M: "messages ?s (js ''general'') = Some [welcome_message (js ''Alice'') (js ''m1'') (js ''t1'')]"
    by (simp_all add: join_accepts[OF ne] init_def members_of_def log_of_def set_add_def)
  have d: "\<exists>s' out. disconnect ?s (js ''c1'') (js ''m2'') (js ''t2'') = Some (s', out) \<and>
      members_of s' (js ''general'') = []"
    using disconnect_member[OF U, of "[js ''c1'']" "[welcome_message (js ''Alice'') (js ''m1'') (js ''t1'')]"
        "js ''m2''" "js ''t2''"] R M
    by (simp add: members_of_def set_delete_def)
  then obtain s' out where r: "run ?s [Disconnect (js ''c1'') (js ''m2'') (js ''t2'')] = Some (s', out)"
    and m: "members_of s' (js ''general'') = []"
    by auto
  from rooms_persist_logs_append_only[OF r]
  have A: "dom (rooms ?s) \<subseteq> dom (rooms s')"
    and B: "\<forall>r log. messages ?s r = Some log \<longrightarrow> (\<exists>more. messages s' r = Some (log @ more))"
    by blast+
  from R have "js ''general'' \<in> dom (rooms ?s)" by (rule domI)
  with A have "js ''general'' \<in> dom (rooms s')" by (rule subsetD)
  moreover from B M have "\<exists>more. messages s' (js ''general'') =
        Some ([welcome_message (js ''Alice'') (js ''m1'') (js ''t1'')] @ more)"
    by blast
  ultimately show ?thesis using r m by blast
qed

section \<open>Reachable states and the example sessions\<close>

lemma count_list_distinct: "distinct xs \<Longrightarrow> x \<in> set xs \<Longrightarrow> count_list xs x = 1"
  by (induction xs) auto

lemma consistent_reachable: "run init xs = Some (s, out) \<Longrightarrow> consistent s"
  using consistent_run[OF consistent_init] by blast

lemma leave_all_fixed:
  "adapter s1 = (\<lambda>r. set_delete (adapter s r) sid) \<Longrightarrow> leave_all s1 sid = s1"
  by (simp add: leave_all_def set_delete_def)

lemma send_error_event_not_new [simp]:
  "send_error_event e \<noteq> NewMessage x" "NewMessage x \<noteq> send_error_event e"
  by (cases e; simp)+

lemmas evaluation =
  connection_def socket_join_def join_accepts init_def log_of_def members_of_def set_add_def
  set_delete_def

lemma two_in_general_reached:
  "map_option fst (run init example_two_in_general) = Some two_in_general"
  by (simp add: example_two_in_general_def two_in_general_def alice_def bob_def evaluation)

lemma two_rooms_reached:
  "map_option fst (run init example_two_rooms) = Some two_rooms"
  by (simp add: example_two_rooms_def two_rooms_def alice_def bob_def evaluation)

lemma reached_run:
  "map_option fst (run init xs) = Some s \<Longrightarrow> run init xs = Some (s, snd (the (run init xs)))"
  by (cases "run init xs") auto

lemma trim_hello: "trim (js ''hello'') = js ''hello''"
  by (simp add: js_def trim_def is_white_space_def)

lemma trim_blanks: "trim (replicate n 0x20) = []"
  by (simp add: trim_def is_white_space_def dropWhile_replicate)

lemma trim_letters: "0 < n \<Longrightarrow> trim (replicate n 0x61) \<noteq> []"
  by (simp add: trim_def is_white_space_def dropWhile_replicate)

section \<open>A send without a payload\<close>

text \<open>
  Claim C10. Every failing send, an unexpected internal failure included, should be
  reported to the sending socket alone and never end the process; the \<open>try\<close> of the
  listener is there for that. A \<open>chatMessage\<close> event emitted with no payload escapes it:
  the payload is destructured in the parameter list, before the \<open>try\<close> is entered, so the
  TypeError is not caught. No error event is emitted and the process ends, with the
  sessions of every socket.
\<close>

theorem send_without_payload_ends_process:
  "step two_in_general (ChatMessageNoPayload (js ''c1'')) = None \<and>
   map_option fst (run init example_two_in_general) = Some two_in_general \<and>
   run init (example_two_in_general @ [ChatMessageNoPayload (js ''c1'')]) = None"
proof -
  have "run init (example_two_in_general @ [ChatMessageNoPayload (js ''c1'')]) = None"
    by (simp add: example_two_in_general_def evaluation)
  then show ?thesis
    by (simp add: example_two_in_general_def two_in_general_def alice_def bob_def evaluation)
qed

section \<open>Rejoining without disconnecting\<close>

text \<open>
  Claim C2. A join on a socket that already has a session should either be refused with
  the state unchanged or leave the previous room first. The server does neither. In the
  session \<open>example_rejoin\<close> no event is an error, the session now names \<open>random\<close>, and the
  socket is still in the member set of \<open>general\<close>. The disconnect that follows removes it
  from \<open>random\<close> only: the entry in \<open>general\<close> outlives the session, and the member list
  the next joiner of \<open>general\<close> receives holds an \<open>undefined\<close> in its place.
\<close>

theorem rejoin_keeps_stale_member:
  "map_option (\<lambda>(s, out). (members_of s (js ''general''), members_of s (js ''random''),
                            map_option user_room (users s (js ''c1'')),
                            filter is_error (map snd out)))
     (run init example_rejoin) =
     Some ([js ''c1''], [js ''c1''], Some (js ''random''), []) \<and>
   map_option (\<lambda>(s, out). (members_of s (js ''general''), members_of s (js ''random''),
                            users s (js ''c1'')))
     (run init (example_rejoin @ [Disconnect (js ''c1'') (js ''m3'') (js ''t3'')])) =
     Some ([js ''c1''], [], None) \<and>
   map_option (\<lambda>(s, out). map (users s) (members_of s (js ''general'')))
     (run init (example_rejoin @
        [Disconnect (js ''c1'') (js ''m3'') (js ''t3''), Connection (js ''c2''),
         Join (js ''c2'') (Some (js ''Bob'')) (Some (js ''general'')) (js ''u3'') (js ''m4'') (js ''t4'')])) =
     Some [None, Some \<lparr> user_id = js ''u3'', user_username = js ''Bob'', user_room = js ''general'',
                          user_socketId = js ''c2'' \<rparr>]"
  by (simp add: example_rejoin_def evaluation disconnect_def disconnect_handler_def leave_all_def
      Let_def socket_to_emit_def)

section \<open>Validation of a send\<close>

text \<open>
  Claim C4, as the server has it. For a socket with a session: the send fails with
  \<open>InvalidMessage\<close> exactly when the text is absent or its trimmed form is empty, whatever
  its length; it fails with \<open>TooLong\<close> exactly when the trimmed form is non-empty and the
  text has more than 1000 code units; the state is unchanged in both cases. A text of
  exactly 1000 code units with a non-empty trimmed form, sent to a room that has a log, is
  appended to that log and broadcast; one of 1001 fails with \<open>TooLong\<close>.
\<close>

theorem send_validation:
  assumes "users s sid = Some u"
  shows "(snd (chatMessage s sid message room mid now) = [([sid], send_error_event InvalidMessage)] \<longleftrightarrow>
            falsy message \<or> (\<exists>m. message = Some m \<and> trim m = [])) \<and>
         (snd (chatMessage s sid message room mid now) = [([sid], send_error_event TooLong)] \<longleftrightarrow>
            (\<exists>m. message = Some m \<and> trim m \<noteq> [] \<and> length m > 1000)) \<and>
         (falsy message \<or> (\<exists>m. message = Some m \<and> (trim m = [] \<or> length m > 1000)) \<longrightarrow>
            fst (chatMessage s sid message room mid now) = s) \<and>
         (\<forall>m r log. message = Some m \<and> trim m \<noteq> [] \<and> length m = 1000 \<and> room = Some r \<and>
            messages s r = Some log \<longrightarrow>
            chatMessage s sid message room mid now =
              (s\<lparr> messages := (messages s)(r \<mapsto> log @ [chat_message u m mid now]) \<rparr>,
               [(adapter s r, NewMessage (chat_message u m mid now))])) \<and>
         (\<forall>m. message = Some m \<and> trim m \<noteq> [] \<and> length m = 1001 \<longrightarrow>
            chatMessage s sid message room mid now = (s, [([sid], send_error_event TooLong)]))"
proof (cases "falsy message \<or> (\<exists>m. message = Some m \<and> trim m = [])")
  case True
  from chat_empty[OF assms True] have "chatMessage s sid message room mid now =
      (s, [([sid], send_error_event InvalidMessage)])" .
  with True show ?thesis by (auto simp del: send_error_event.simps)
next
  case False
  then obtain m where m: "message = Some m" "trim m \<noteq> []" by (cases message) auto
  show ?thesis
  proof (cases "length m > 1000")
    case True
    from chat_too_long[OF assms m(2) True] m True show ?thesis by (auto simp del: send_error_event.simps)
  next
    case short: False
    show ?thesis
    proof (cases "room = None \<or> (\<exists>r. room = Some r \<and> messages s r = None)")
      case True
      have "chatMessage s sid message room mid now = (s, [([sid], send_error_event InternalFailure)])"
        using chat_no_log[OF assms m(2) _ True] short m(1) by simp
      with m short True show ?thesis by (auto simp del: send_error_event.simps)
    next
      case False
      then obtain r log where r: "room = Some r" "messages s r = Some log" by (auto simp del: send_error_event.simps)
      have "chatMessage s sid message room mid now =
          (s\<lparr> messages := (messages s)(r \<mapsto> log @ [chat_message u m mid now]) \<rparr>,
           [(adapter s r, NewMessage (chat_message u m mid now))])"
        using chat_accepts[OF assms m(2) _ r(2)] short m(1) r(1) by simp
      with m short r show ?thesis by (auto simp del: send_error_event.simps)
    qed
  qed
qed

theorem send_validation_witness:
  "map_option fst (run init example_two_in_general) = Some two_in_general \<and>
   users two_in_general (js ''c1'') = Some alice \<and>
   chatMessage two_in_general (js ''c1'') (Some (replicate 1000 0x61)) (Some (js ''general''))
       (js ''m3'') (js ''t3'') =
     (two_in_general\<lparr> messages := (messages two_in_general)(js ''general'' \<mapsto>
          [welcome_message (js ''Alice'') (js ''m1'') (js ''t1''),
           welcome_message (js ''Bob'') (js ''m2'') (js ''t2'')] @
          [chat_message alice (replicate 1000 0x61) (js ''m3'') (js ''t3'')]) \<rparr>,
      [(adapter two_in_general (js ''general''),
        NewMessage (chat_message alice (replicate 1000 0x61) (js ''m3'') (js ''t3'')))]) \<and>
   chatMessage two_in_general (js ''c1'') (Some (replicate 1001 0x61)) (Some (js ''general''))
       (js ''m3'') (js ''t3'') =
     (two_in_general, [([js ''c1''], send_error_event TooLong)])"
proof -
  have u: "users two_in_general (js ''c1'') = Some alice" by (simp add: two_in_general_def)
  have m: "messages two_in_general (js ''general'') =
      Some [welcome_message (js ''Alice'') (js ''m1'') (js ''t1''),
            welcome_message (js ''Bob'') (js ''m2'') (js ''t2'')]"
    by (simp add: two_in_general_def)
  have t0: "trim (replicate 1000 (0x61 :: jschar)) \<noteq> []" by (rule trim_letters) simp
  have t1: "trim (replicate 1001 (0x61 :: jschar)) \<noteq> []" by (rule trim_letters) simp
  from send_validation[OF u, of "Some (replicate 1000 0x61)" "Some (js ''general'')" "js ''m3''" "js ''t3''"]
  have a: "chatMessage two_in_general (js ''c1'') (Some (replicate 1000 0x61)) (Some (js ''general''))
       (js ''m3'') (js ''t3'') =
     (two_in_general\<lparr> messages := (messages two_in_general)(js ''general'' \<mapsto>
          [welcome_message (js ''Alice'') (js ''m1'') (js ''t1''),
           welcome_message (js ''Bob'') (js ''m2'') (js ''t2'')] @
          [chat_message alice (replicate 1000 0x61) (js ''m3'') (js ''t3'')]) \<rparr>,
      [(adapter two_in_general (js ''general''),
        NewMessage (chat_message alice (replicate 1000 0x61) (js ''m3'') (js ''t3'')))])"
    using t0 m by (simp del: send_error_event.simps)
  from send_validation[OF u, of "Some (replicate 1001 0x61)" "Some (js ''general'')" "js ''m3''" "js ''t3''"]
  have b: "chatMessage two_in_general (js ''c1'') (Some (replicate 1001 0x61)) (Some (js ''general''))
       (js ''m3'') (js ''t3'') =
     (two_in_general, [([js ''c1''], send_error_event TooLong)])"
    using t1 by (simp del: send_error_event.simps)
  from a b u two_in_general_reached show ?thesis by simp
qed

text \<open>
  As the claim states it, \<open>TooLong\<close> would be the answer to every text of more than 1000
  code units. A text of 1001 spaces is answered with \<open>InvalidMessage\<close>: the emptiness check
  comes first.
\<close>

theorem long_blank_text_counterexample:
  "map_option fst (run init example_two_in_general) = Some two_in_general \<and>
   users two_in_general (js ''c1'') = Some alice \<and>
   length (replicate 1001 (0x20 :: jschar)) > 1000 \<and>
   chatMessage two_in_general (js ''c1'') (Some (replicate 1001 0x20)) (Some (js ''general''))
       (js ''m3'') (js ''t3'') =
     (two_in_general, [([js ''c1''], send_error_event InvalidMessage)]) \<and>
   send_error_event InvalidMessage \<noteq> send_error_event TooLong"
proof -
  have u: "users two_in_general (js ''c1'') = Some alice" by (simp add: two_in_general_def)
  have "falsy (Some (replicate 1001 (0x20 :: jschar))) \<or>
      (\<exists>m. Some (replicate 1001 (0x20 :: jschar)) = Some m \<and> trim m = [])"
    by (simp add: trim_blanks)
  from chat_empty[OF u this, of "Some (js ''general'')" "js ''m3''" "js ''t3''"]
    two_in_general_reached u
  show ?thesis by (simp del: send_error_event.simps)
qed

section \<open>Broadcast of a chat message\<close>

text \<open>
  Claim C5, as the server has it. In every state the server reaches, a send with a valid
  text that names the room of the sender's own session succeeds: the message is appended
  to that room's log and emitted once, as one \<open>newMessage\<close> broadcast whose recipients
  include every socket with a session in that room, and the sender exactly once.
\<close>

theorem send_reaches_room_and_sender_once:
  assumes "run init xs = Some (s, out0)" "users s sid = Some u" "trim m \<noteq> []" "length m \<le> 1000"
  shows "\<exists>log recips.
     messages s (user_room u) = Some log \<and>
     chatMessage s sid (Some m) (Some (user_room u)) mid now =
       (s\<lparr> messages := (messages s)(user_room u \<mapsto> log @ [chat_message u m mid now]) \<rparr>,
        [(recips, NewMessage (chat_message u m mid now))]) \<and>
     (\<forall>c v. users s c = Some v \<and> user_room v = user_room u \<longrightarrow> c \<in> set recips) \<and>
     count_list recips sid = 1"
proof -
  have cs: "consistent s" using assms(1) by (rule consistent_reachable)
  from session_has_log[OF cs assms(2)] obtain log where log: "messages s (user_room u) = Some log" ..
  have all: "\<forall>c v. users s c = Some v \<and> user_room v = user_room u \<longrightarrow> c \<in> set (adapter s (user_room u))"
    using consistent_joined[OF cs] by metis
  have "count_list (adapter s (user_room u)) sid = 1"
    using consistent_distinct[OF cs] consistent_joined[OF cs assms(2)] by (rule count_list_distinct)
  with log all chat_accepts[OF assms(2-4) log, of mid now] show ?thesis by blast
qed

theorem send_reaches_room_and_sender_once_witness:
  "map_option fst (run init example_two_in_general) = Some two_in_general \<and>
   users two_in_general (js ''c1'') = Some alice \<and>
   trim (js ''hello'') \<noteq> [] \<and> length (js ''hello'') \<le> 1000 \<and>
   (\<exists>log recips.
      messages two_in_general (user_room alice) = Some log \<and>
      chatMessage two_in_general (js ''c1'') (Some (js ''hello'')) (Some (user_room alice))
          (js ''m3'') (js ''t3'') =
        (two_in_general\<lparr> messages := (messages two_in_general)(user_room alice \<mapsto>
             log @ [chat_message alice (js ''hello'') (js ''m3'') (js ''t3'')]) \<rparr>,
         [(recips, NewMessage (chat_message alice (js ''hello'') (js ''m3'') (js ''t3'')))]) \<and>
      js ''c2'' \<in> set recips \<and> count_list recips (js ''c1'') = 1)"
proof -
  have r: "run init example_two_in_general =
      Some (two_in_general, snd (the (run init example_two_in_general)))"
    using two_in_general_reached by (rule reached_run)
  have u: "users two_in_general (js ''c1'') = Some alice"
    by (simp add: two_in_general_def)
  have v: "users two_in_general (js ''c2'') = Some bob \<and> user_room bob = user_room alice"
    by (simp add: two_in_general_def alice_def bob_def)
  have t: "trim (js ''hello'') \<noteq> []" by (simp add: trim_hello)
  have l: "length (js ''hello'') \<le> 1000" by simp
  from send_reaches_room_and_sender_once[OF r u t l, of "js ''m3''" "js ''t3''"] v
  have "\<exists>log recips.
      messages two_in_general (user_room alice) = Some log \<and>
      chatMessage two_in_general (js ''c1'') (Some (js ''hello'')) (Some (user_room alice))
          (js ''m3'') (js ''t3'') =
        (two_in_general\<lparr> messages := (messages two_in_general)(user_room alice \<mapsto>
             log @ [chat_message alice (js ''hello'') (js ''m3'') (js ''t3'')]) \<rparr>,
         [(recips, NewMessage (chat_message alice (js ''hello'') (js ''m3'') (js ''t3'')))]) \<and>
      js ''c2'' \<in> set recips \<and> count_list recips (js ''c1'') = 1"
    by blast
  with two_in_general_reached u t l show ?thesis by blast
qed

text \<open>
  As the claim states it, every successful send would echo to its sender. The room of a
  send is the one the client names, not the one of the session: Alice, whose session is in
  \<open>general\<close>, sends to \<open>random\<close>; the message is appended there and broadcast to Bob alone.
\<close>

theorem send_to_other_room_counterexample:
  "map_option fst (run init example_two_rooms) = Some two_rooms \<and>
   users two_rooms (js ''c1'') = Some alice \<and>
   chatMessage two_rooms (js ''c1'') (Some (js ''hello'')) (Some (js ''random'')) (js ''m3'') (js ''t3'') =
     (two_rooms\<lparr> messages := (messages two_rooms)(js ''random'' \<mapsto>
          [welcome_message (js ''Bob'') (js ''m2'') (js ''t2''),
           chat_message alice (js ''hello'') (js ''m3'') (js ''t3'')]) \<rparr>,
      [([js ''c2''], NewMessage (chat_message alice (js ''hello'') (js ''m3'') (js ''t3'')))]) \<and>
   count_list [js ''c2''] (js ''c1'') = 0"
proof -
  have u: "users two_rooms (js ''c1'') = Some alice" by (simp add: two_rooms_def)
  have m: "messages two_rooms (js ''random'') = Some [welcome_message (js ''Bob'') (js ''m2'') (js ''t2'')]"
    by (simp add: two_rooms_def)
  have a: "adapter two_rooms (js ''random'') = [js ''c2'']" by (simp add: two_rooms_def)
  have t: "trim (js ''hello'') \<noteq> []" by (simp add: trim_hello)
  have l: "length (js ''hello'') \<le> 1000" by simp
  from chat_accepts[OF u t l m, of "js ''m3''" "js ''t3''"] a two_rooms_reached u
  show ?thesis by simp
qed

section \<open>Disconnecting twice\<close>

text \<open>
  Claim C6. In every state the server reaches, a disconnect of a socket returns, and a
  second disconnect of the same socket right after it returns the same state and emits
  nothing. For a socket with a session the first disconnect emits exactly one \<open>userLeft\<close>
  broadcast and appends exactly one message, the system leave message, to the log of the
  session's room, and removes the socket from that room's member set; for a socket
  without a session it emits nothing and changes no log.
\<close>

theorem disconnect_idempotent:
  assumes "run init xs = Some (s, out0)"
  shows "\<exists>s1 out1.
     disconnect s sid mid now = Some (s1, out1) \<and>
     disconnect s1 sid mid' now' = Some (s1, []) \<and>
     (case users s sid of
        None \<Rightarrow> out1 = [] \<and> messages s1 = messages s
      | Some u \<Rightarrow>
          (\<exists>recips. out1 = [(recips, UserLeft (user_id u) (user_username u)
                                       (leave_message (user_username u) mid now))]) \<and>
          log_of s1 (user_room u) = log_of s (user_room u) @ [leave_message (user_username u) mid now] \<and>
          sid \<notin> set (members_of s1 (user_room u)))"
proof -
  have cs: "consistent s" using assms(1) by (rule consistent_reachable)
  from disconnect_cases[OF cs, of sid] show ?thesis
  proof (elim disjE exE conjE)
    assume none: "users s sid = None"
    let ?s1 = "leave_all s sid"
    have "users ?s1 sid = None" using none by (simp add: leave_all_def)
    then have "disconnect ?s1 sid mid' now' = Some (leave_all ?s1 sid, [])"
      by (rule disconnect_no_session)
    moreover have "leave_all ?s1 sid = ?s1"
      by (rule leave_all_fixed) (simp add: leave_all_def)
    moreover have "messages ?s1 = messages s" by (simp add: leave_all_def)
    ultimately show ?thesis
      using none disconnect_no_session[OF none, of mid now] by simp
  next
    fix u ms log
    assume member: "users s sid = Some u" "rooms s (user_room u) = Some ms" "sid \<in> set ms"
      "messages s (user_room u) = Some log"
    let ?s1 = "fst (the (disconnect s sid mid now))"
    let ?out1 = "snd (the (disconnect s sid mid now))"
    have d: "disconnect s sid mid now = Some (?s1, ?out1)"
      by (simp add: disconnect_member[OF member])
    have U: "users ?s1 sid = None"
      and A: "adapter ?s1 = (\<lambda>r. set_delete (adapter s r) sid)"
      and L: "log_of ?s1 (user_room u) = log_of s (user_room u) @ [leave_message (user_username u) mid now]"
      and R: "members_of ?s1 (user_room u) = set_delete ms sid"
      and O: "?out1 = [(filter (\<lambda>x. x \<notin> set (set_delete (adapter s sid) sid))
               (set_delete (adapter s (user_room u)) sid),
             UserLeft (user_id u) (user_username u) (leave_message (user_username u) mid now))]"
      using member(4) by (simp_all add: disconnect_member[OF member] log_of_def)
    have "disconnect ?s1 sid mid' now' = Some (leave_all ?s1 sid, [])"
      using U by (rule disconnect_no_session)
    moreover have "leave_all ?s1 sid = ?s1" using A by (rule leave_all_fixed)
    ultimately have "disconnect ?s1 sid mid' now' = Some (?s1, [])" by simp
    moreover have "sid \<notin> set (members_of ?s1 (user_room u))" by (simp add: R)
    ultimately show ?thesis
      using d L O member(1)
      by (intro exI[of _ ?s1] exI[of _ ?out1]) simp
  qed
qed

theorem disconnect_idempotent_witness:
  "map_option fst (run init example_two_in_general) = Some two_in_general \<and>
   (\<exists>s1 out1.
      disconnect two_in_general (js ''c2'') (js ''m3'') (js ''t3'') = Some (s1, out1) \<and>
      disconnect s1 (js ''c2'') (js ''m4'') (js ''t4'') = Some (s1, []) \<and>
      (\<exists>recips. out1 = [(recips, UserLeft (js ''u2'') (js ''Bob'')
                                   (leave_message (js ''Bob'') (js ''m3'') (js ''t3'')))]) \<and>
      log_of s1 (js ''general'') =
        [welcome_message (js ''Alice'') (js ''m1'') (js ''t1''),
         welcome_message (js ''Bob'') (js ''m2'') (js ''t2''),
         leave_message (js ''Bob'') (js ''m3'') (js ''t3'')] \<and>
      js ''c2'' \<notin> set (members_of s1 (js ''general'')))"
proof -
  have r: "run init example_two_in_general =
      Some (two_in_general, snd (the (run init example_two_in_general)))"
    using two_in_general_reached by (rule reached_run)
  have u: "users two_in_general (js ''c2'') = Some bob" by (simp add: two_in_general_def)
  have l: "log_of two_in_general (js ''general'') =
      [welcome_message (js ''Alice'') (js ''m1'') (js ''t1''),
       welcome_message (js ''Bob'') (js ''m2'') (js ''t2'')]"
    by (simp add: two_in_general_def log_of_def)
  from disconnect_idempotent[OF r, of "js ''c2''" "js ''m3''" "js ''t3''" "js ''m4''" "js ''t4''"]
  show ?thesis
    using two_in_general_reached by (simp add: u) (simp add: bob_def l)
qed

section \<open>What a successful join emits\<close>




section \<open>The display name of a session\<close>

text \<open>
  Claim C8, as the server has it. A join that succeeds (it emits \<open>joined\<close>) stores the
  username exactly as supplied, without trimming; that name has between 1 and 20 code
  units.
\<close>

theorem display_name_is_username_verbatim:
  assumes "join s sid username room uid mid now = (s', out)" "([sid], Joined u r log us) \<in> set out"
  shows "username = Some (user_username u) \<and> users s' sid = Some u \<and>
         1 \<le> length (user_username u) \<and> length (user_username u) \<le> 20"
proof (cases rule: join_cases[of s sid username room uid mid now])
  case (rejected e)
  with assms show ?thesis by (cases e) auto
next
  case (accepted un r')
  with assms have "s' = fst (join s sid (Some un) (Some r') uid mid now)"
    "out = snd (join s sid (Some un) (Some r') uid mid now)" by simp_all
  with assms(2) accepted show ?thesis
    by (auto simp: join_accepts[OF accepted(3-5)] Suc_le_eq)
qed

theorem display_name_is_username_verbatim_witness:
  "join init (js ''c1'') (Some (js ''Alice'')) (Some (js ''general'')) (js ''u1'') (js ''m1'') (js ''t1'') =
     (fst (join init (js ''c1'') (Some (js ''Alice'')) (Some (js ''general'')) (js ''u1'') (js ''m1'') (js ''t1'')),
      snd (join init (js ''c1'') (Some (js ''Alice'')) (Some (js ''general'')) (js ''u1'') (js ''m1'') (js ''t1''))) \<and>
   ([js ''c1''], Joined alice (js ''general'') [welcome_message (js ''Alice'') (js ''m1'') (js ''t1'')]
                   [Some alice])
     \<in> set (snd (join init (js ''c1'') (Some (js ''Alice'')) (Some (js ''general''))
                    (js ''u1'') (js ''m1'') (js ''t1''))) \<and>
   Some (js ''Alice'') = Some (user_username alice) \<and>
   users (fst (join init (js ''c1'') (Some (js ''Alice'')) (Some (js ''general''))
                 (js ''u1'') (js ''m1'') (js ''t1''))) (js ''c1'') = Some alice \<and>
   1 \<le> length (user_username alice) \<and> length (user_username alice) \<le> 20"
proof -
  have j: "join init (js ''c1'') (Some (js ''Alice'')) (Some (js ''general'')) (js ''u1'') (js ''m1'') (js ''t1'') =
     (fst (join init (js ''c1'') (Some (js ''Alice'')) (Some (js ''general'')) (js ''u1'') (js ''m1'') (js ''t1'')),
      snd (join init (js ''c1'') (Some (js ''Alice'')) (Some (js ''general'')) (js ''u1'') (js ''m1'') (js ''t1'')))"
    by simp
  have m: "([js ''c1''], Joined alice (js ''general'') [welcome_message (js ''Alice'') (js ''m1'') (js ''t1'')]
                   [Some alice])
     \<in> set (snd (join init (js ''c1'') (Some (js ''Alice'')) (Some (js ''general''))
                    (js ''u1'') (js ''m1'') (js ''t1'')))"
    by (simp add: evaluation alice_def)
  from display_name_is_username_verbatim[OF j m] j m show ?thesis by blast
qed

text \<open>
  As the claim states it, the stored name would be trimmed and a username of white space
  alone could not produce a session. A username of two spaces is accepted and stored as
  it is.
\<close>

theorem blank_username_counterexample:
  "users (fst (join init (js ''c1'') (Some (js ''  '')) (Some (js ''general''))
                 (js ''u1'') (js ''m1'') (js ''t1''))) (js ''c1'') =
     Some \<lparr> user_id = js ''u1'', user_username = js ''  '', user_room = js ''general'',
            user_socketId = js ''c1'' \<rparr> \<and>
   trim (js ''  '') = [] \<and> js ''  '' \<noteq> trim (js ''  '')"
  by (simp add: evaluation) (simp add: js_def trim_def is_white_space_def)

end
